theory Spec2Isabelle
  imports Complex_Main
begin

section \<open>The cell model\<close>

text \<open>
  Modelled from the spec: the classes \<open>Pixel\<close>, \<open>Color\<close> and \<open>Position\<close> of the module
  \<open>data\<close>, which \<open>compute_diff_buffer\<close> imports and which is not among the source files.
  The spec (section 3) gives a colour as an RGB triple of numeric channels, a position as
  an integer pair (x, y), and a cell as a glyph, a colour and a position. The differ reads
  \<open>pixel.char\<close>, \<open>pixel.color.to_tuple_rgb()\<close> and builds
  \<open>Pixel(' ', Color(0, 0, 0), Position(x, y))\<close>, which the spec calls the synthetic blank
  cell (space glyph, RGB black). Channels and the tolerance are Python numbers; they are
  modelled as exact reals. Where the code computes in binary floating point, its rounded
  results can differ from the exact ones in the last bit, so which side of the tolerance
  threshold a pair of colours at the very boundary falls on is not decided by this
  model.
\<close>

datatype Color = Color real real real

fun to_tuple_rgb :: "Color \<Rightarrow> real \<times> real \<times> real" where
  "to_tuple_rgb (Color r g b) = (r, g, b)"

datatype Position = Position int int

datatype Pixel = Pixel (char: string) (color: Color) (position: Position)

text \<open>
  A frame buffer is a list of rows, a row a list of cells, and a cell may be \<open>None\<close>.
  An update entry is the tuple \<open>((x, y), pixel)\<close>.
\<close>

type_synonym row = "Pixel option list"
type_synonym buffer = "row list"
type_synonym update = "(int \<times> int) \<times> Pixel"

section \<open>Python list indexing\<close>

text \<open>
  \<open>xs[i]\<close> for a non-negative index raises \<open>IndexError\<close> when \<open>i\<close> is not below
  \<open>len(xs)\<close>. The indices of \<open>compute_diff_buffer\<close> come from \<open>range\<close>, so they are
  never negative.
\<close>

datatype error = IndexError

definition getitem :: "'a list \<Rightarrow> nat \<Rightarrow> error + 'a" where
  "getitem xs i = (if i < length xs then Inr (xs ! i) else Inl IndexError)"

text \<open>
  A \<open>for\<close> loop over a list of indices that threads the loop's state and stops at the
  first exception.
\<close>

fun for_range :: "nat list \<Rightarrow> (nat \<Rightarrow> 's \<Rightarrow> error + 's) \<Rightarrow> 's \<Rightarrow> error + 's" where
  "for_range [] body s = Inr s"
| "for_range (i # is) body s =
     (case body i s of Inl e \<Rightarrow> Inl e | Inr s' \<Rightarrow> for_range is body s')"

section \<open>compute_diff_buffer\<close>

text \<open>
  The routine follows, loop by loop. Its only operations that can raise are the four
  list accesses; the import of line 40 is taken to succeed, and the buffers are taken to
  be lists of lists of cells or \<open>None\<close>, as the types say.
\<close>

text \<open>
  Lines 33 to 35: the squared Euclidean distance of the two colours, in exact arithmetic.
\<close>

definition distance_squared :: "Pixel \<Rightarrow> Pixel \<Rightarrow> real" where
  "distance_squared self_pixel other_pixel =
     (case to_tuple_rgb (color self_pixel) of (r1, g1, b1) \<Rightarrow>
      case to_tuple_rgb (color other_pixel) of (r2, g2, b2) \<Rightarrow>
        (r1 - r2)\<^sup>2 + (g1 - g2)\<^sup>2 + (b1 - b2)\<^sup>2)"

text \<open>Lines 25 to 37: the decision \<open>needs_update\<close>.\<close>

definition needs_update :: "real \<Rightarrow> Pixel option \<Rightarrow> Pixel option \<Rightarrow> bool" where
  "needs_update threshold_squared self_pixel other_pixel =
     (if (self_pixel = None) \<noteq> (other_pixel = None) then True
      else if self_pixel \<noteq> None \<and> other_pixel \<noteq> None then
        (if char (the self_pixel) \<noteq> char (the other_pixel) then True
         else if distance_squared (the self_pixel) (the other_pixel) \<ge> threshold_squared
           then True
         else False)
      else False)"

text \<open>Line 41: the cell of the entry.\<close>

definition pixel_to_draw :: "Pixel option \<Rightarrow> nat \<Rightarrow> nat \<Rightarrow> Pixel" where
  "pixel_to_draw self_pixel x y =
     (if self_pixel \<noteq> None then the self_pixel
      else Pixel '' '' (Color 0 0 0) (Position (int x) (int y)))"

text \<open>Lines 19 to 42: the body of the loop over \<open>x\<close>; its state is \<open>diff_buffer\<close>.\<close>

definition column_body ::
  "row \<Rightarrow> row \<Rightarrow> int \<Rightarrow> real \<Rightarrow> bool \<Rightarrow> nat \<Rightarrow> nat \<Rightarrow> update list \<Rightarrow> error + update list"
where
  "column_body self_row other_row term_width threshold_squared render_outside_bounds y x
       diff_buffer =
     (if int x \<ge> term_width \<and> \<not> render_outside_bounds then Inr diff_buffer
      else
        case (if x < length self_row then getitem self_row x else Inr None) of
          Inl e \<Rightarrow> Inl e
        | Inr self_pixel \<Rightarrow>
           (case (if x < length other_row then getitem other_row x else Inr None) of
              Inl e \<Rightarrow> Inl e
            | Inr other_pixel \<Rightarrow>
                if needs_update threshold_squared self_pixel other_pixel
                then Inr (diff_buffer @ [((int x, int y), pixel_to_draw self_pixel x y)])
                else Inr diff_buffer))"

text \<open>Lines 11 to 42: the body of the loop over \<open>y\<close>.\<close>

definition row_body ::
  "buffer \<Rightarrow> buffer \<Rightarrow> int \<Rightarrow> int \<Rightarrow> real \<Rightarrow> bool \<Rightarrow> nat \<Rightarrow> update list \<Rightarrow> error + update list"
where
  "row_body self_buffer other_buffer term_width term_height threshold_squared
       render_outside_bounds y diff_buffer =
     (if int y \<ge> term_height \<and> \<not> render_outside_bounds then Inr diff_buffer
      else
        case (if y < length self_buffer then getitem self_buffer y else Inr []) of
          Inl e \<Rightarrow> Inl e
        | Inr self_row \<Rightarrow>
           (case (if y < length other_buffer then getitem other_buffer y else Inr []) of
              Inl e \<Rightarrow> Inl e
            | Inr other_row \<Rightarrow>
                for_range [0 ..< max (length self_row) (length other_row)]
                  (column_body self_row other_row term_width threshold_squared
                     render_outside_bounds y)
                  diff_buffer))"

definition compute_diff_buffer ::
  "buffer \<Rightarrow> buffer \<Rightarrow> int \<Rightarrow> int \<Rightarrow> real \<Rightarrow> bool \<Rightarrow> error + update list"
where
  "compute_diff_buffer self_buffer other_buffer term_width term_height color_threshold
       render_outside_bounds =
     (let threshold_squared = color_threshold * color_threshold;
          max_height = max (length self_buffer) (length other_buffer)
      in for_range [0 ..< max_height]
           (row_body self_buffer other_buffer term_width term_height threshold_squared
              render_outside_bounds)
           [])"

text \<open>
  Line 7 is the exact product here; Python rounds the product of two floats to the
  nearest double.
\<close>

text \<open>The default of the parameter \<open>color_threshold\<close>.\<close>

definition default_color_threshold :: real where
  "default_color_threshold = 0.05"

section \<open>Notions the properties are stated with\<close>

text \<open>
  The cell a buffer has at column \<open>x\<close> of row \<open>y\<close>: absent beyond the buffer's row count
  and beyond the row's length.
\<close>

definition cell_at :: "buffer \<Rightarrow> nat \<Rightarrow> nat \<Rightarrow> Pixel option" where
  "cell_at buf x y =
     (if y < length buf \<and> x < length (buf ! y) then buf ! y ! x else None)"

text \<open>Row \<open>y\<close> of a buffer, empty beyond the buffer's row count.\<close>

definition row_at :: "buffer \<Rightarrow> nat \<Rightarrow> row" where
  "row_at buf y = (if y < length buf then buf ! y else [])"

text \<open>A position is scanned when it is inside the viewport or the flag is set.\<close>

definition scanned :: "int \<Rightarrow> int \<Rightarrow> bool \<Rightarrow> nat \<Rightarrow> nat \<Rightarrow> bool" where
  "scanned term_width term_height render_outside_bounds x y =
     (render_outside_bounds \<or> (int x < term_width \<and> int y < term_height))"

text \<open>The entries one row contributes, and the entries of the whole scan.\<close>

definition row_updates :: "buffer \<Rightarrow> buffer \<Rightarrow> int \<Rightarrow> real \<Rightarrow> bool \<Rightarrow> nat \<Rightarrow> update list" where
  "row_updates A B w thr oob y =
     map (\<lambda>x. ((int x, int y), pixel_to_draw (cell_at A x y) x y))
       (filter (\<lambda>x. (oob \<or> int x < w) \<and> needs_update thr (cell_at A x y) (cell_at B x y))
          [0 ..< max (length (row_at A y)) (length (row_at B y))])"

definition all_updates :: "buffer \<Rightarrow> buffer \<Rightarrow> int \<Rightarrow> int \<Rightarrow> real \<Rightarrow> bool \<Rightarrow> update list" where
  "all_updates A B w h thr oob =
     concat (map (row_updates A B w thr oob)
       (filter (\<lambda>y. oob \<or> int y < h) [0 ..< max (length A) (length B)]))"

text \<open>Row-major order on positions \<open>(x, y)\<close>: by \<open>y\<close>, then by \<open>x\<close>.\<close>

definition row_major_less :: "int \<times> int \<Rightarrow> int \<times> int \<Rightarrow> bool" where
  "row_major_less p q = (snd p < snd q \<or> (snd p = snd q \<and> fst p < fst q))"

text \<open>The colours of the spec's scenarios, on the channel scale 0 to 255.\<close>

definition red :: Color where
  "red = Color 255 0 0"

definition blue :: Color where
  "blue = Color 0 0 255"

text \<open>
  A frame whose only cell is at column 10 of row 10: ten empty rows, then a row of ten
  absent cells and one present cell.
\<close>

definition frame_10_10 :: buffer where
  "frame_10_10 =
     replicate 10 [] @ [replicate 10 None @ [Some (Pixel ''A'' red (Position 10 10))]]"

section \<open>The loops compute the scan\<close>

lemma for_range_appends:
  assumes "\<And>i s. i \<in> set js \<Longrightarrow> body i s = Inr (s @ f i)"
  shows "for_range js body s = Inr (s @ concat (map f js))"
  using assms by (induction js arbitrary: s) simp_all

lemma concat_map_if_singleton:
  "concat (map (\<lambda>x. if P x then [g x] else []) xs) = map g (filter P xs)"
  by (induction xs) simp_all

lemma concat_map_if_list:
  "concat (map (\<lambda>x. if P x then g x else []) xs) = concat (map g (filter P xs))"
  by (induction xs) simp_all

lemma column_body_appends:
  "column_body (row_at A y) (row_at B y) w thr oob y x s =
     Inr (s @ (if (oob \<or> int x < w) \<and> needs_update thr (cell_at A x y) (cell_at B x y)
               then [((int x, int y), pixel_to_draw (cell_at A x y) x y)] else []))"
  by (auto simp: column_body_def getitem_def cell_at_def row_at_def needs_update_def)

lemma row_body_appends:
  "row_body A B w h thr oob y s =
     Inr (s @ (if oob \<or> int y < h then row_updates A B w thr oob y else []))"
proof -
  have inner: "for_range [0 ..< max (length (row_at A y)) (length (row_at B y))]
        (column_body (row_at A y) (row_at B y) w thr oob y) s
      = Inr (s @ row_updates A B w thr oob y)"
    unfolding row_updates_def concat_map_if_singleton [symmetric]
    by (rule for_range_appends) (rule column_body_appends)
  show ?thesis
  proof (cases "oob \<or> int y < h")
    case False
    then show ?thesis by (auto simp: row_body_def)
  next
    case True
    have "row_body A B w h thr oob y s
        = for_range [0 ..< max (length (row_at A y)) (length (row_at B y))]
            (column_body (row_at A y) (row_at B y) w thr oob y) s"
      using True by (auto simp: row_body_def getitem_def row_at_def)
    with inner True show ?thesis by simp
  qed
qed

lemma compute_diff_buffer_scan:
  "compute_diff_buffer A B w h t oob = Inr (all_updates A B w h (t * t) oob)"
proof -
  have "for_range [0 ..< max (length A) (length B)] (row_body A B w h (t * t) oob) []
      = Inr ([] @ concat (map (\<lambda>y. if oob \<or> int y < h then row_updates A B w (t * t) oob y else [])
                 [0 ..< max (length A) (length B)]))"
    by (rule for_range_appends) (rule row_body_appends)
  then show ?thesis
    by (simp add: compute_diff_buffer_def all_updates_def concat_map_if_list)
qed

section \<open>Which entries the scan holds, and in which order\<close>

lemma needs_update_present:
  "needs_update thr a b \<Longrightarrow> a \<noteq> None \<or> b \<noteq> None"
  by (auto simp: needs_update_def split: if_splits)

lemma cell_at_row_at: "cell_at A x y \<noteq> None \<Longrightarrow> y < length A \<and> x < length (row_at A y)"
  by (auto simp: cell_at_def row_at_def split: if_splits)

lemma needs_update_in_extent:
  assumes "needs_update thr (cell_at A x y) (cell_at B x y)"
  shows "y < max (length A) (length B) \<and> x < max (length (row_at A y)) (length (row_at B y))"
  using needs_update_present [OF assms] cell_at_row_at [of A x y] cell_at_row_at [of B x y]
  by auto

lemma in_row_updates:
  "(p, c) \<in> set (row_updates A B w thr oob y) \<longleftrightarrow>
     (\<exists>x. p = (int x, int y) \<and> (oob \<or> int x < w)
        \<and> needs_update thr (cell_at A x y) (cell_at B x y)
        \<and> c = pixel_to_draw (cell_at A x y) x y)"
  using needs_update_in_extent [of thr A _ y B]
  by (auto simp: row_updates_def)

lemma in_all_updates:
  "(p, c) \<in> set (all_updates A B w h thr oob) \<longleftrightarrow>
     (\<exists>x y. p = (int x, int y) \<and> scanned w h oob x y
        \<and> needs_update thr (cell_at A x y) (cell_at B x y)
        \<and> c = pixel_to_draw (cell_at A x y) x y)"
proof -
  have "(p, c) \<in> set (all_updates A B w h thr oob) \<longleftrightarrow>
      (\<exists>y. y < max (length A) (length B) \<and> (oob \<or> int y < h)
         \<and> (p, c) \<in> set (row_updates A B w thr oob y))"
    by (auto simp: all_updates_def)
  also have "\<dots> \<longleftrightarrow> (\<exists>y. (oob \<or> int y < h) \<and> (p, c) \<in> set (row_updates A B w thr oob y))"
    using needs_update_in_extent [of thr A _ _ B] by (auto simp: in_row_updates)
  also have "\<dots> \<longleftrightarrow> (\<exists>x y. p = (int x, int y) \<and> scanned w h oob x y
        \<and> needs_update thr (cell_at A x y) (cell_at B x y)
        \<and> c = pixel_to_draw (cell_at A x y) x y)"
    by (auto simp: in_row_updates scanned_def)
  finally show ?thesis .
qed

lemma position_in_all_updates:
  "(\<exists>c. ((int x, int y), c) \<in> set (all_updates A B w h thr oob)) \<longleftrightarrow>
     scanned w h oob x y \<and> needs_update thr (cell_at A x y) (cell_at B x y)"
  by (auto simp: in_all_updates)

lemma sorted_wrt_concat_map:
  assumes "sorted_wrt (<) ys"
    and "\<And>y. y \<in> set ys \<Longrightarrow> sorted_wrt R (f y)"
    and "\<And>y y' a b. y < y' \<Longrightarrow> a \<in> set (f y) \<Longrightarrow> b \<in> set (f y') \<Longrightarrow> R a b"
  shows "sorted_wrt R (concat (map f ys))"
  using assms by (induction ys) (auto simp: sorted_wrt_append)

lemma sorted_wrt_irrefl_distinct:
  "sorted_wrt R xs \<Longrightarrow> (\<And>x. \<not> R x x) \<Longrightarrow> distinct xs"
  by (induction xs) auto

lemma row_updates_sorted:
  "sorted_wrt row_major_less (map fst (row_updates A B w thr oob y))"
proof -
  have "sorted_wrt (<) (filter (\<lambda>x. (oob \<or> int x < w) \<and> needs_update thr (cell_at A x y) (cell_at B x y))
          [0 ..< max (length (row_at A y)) (length (row_at B y))])"
    by (rule sorted_wrt_filter) simp
  then show ?thesis
    unfolding row_updates_def
    by (simp add: sorted_wrt_map o_def row_major_less_def)
qed

lemma all_updates_sorted:
  "sorted_wrt row_major_less (map fst (all_updates A B w h thr oob))"
proof -
  have ys: "sorted_wrt (<) (filter (\<lambda>y. oob \<or> int y < h) [0 ..< max (length A) (length B)])"
    by (rule sorted_wrt_filter) simp
  have "sorted_wrt row_major_less
     (concat (map (\<lambda>y. map fst (row_updates A B w thr oob y))
        (filter (\<lambda>y. oob \<or> int y < h) [0 ..< max (length A) (length B)])))"
  proof (rule sorted_wrt_concat_map [OF ys])
    fix y show "sorted_wrt row_major_less (map fst (row_updates A B w thr oob y))"
      by (rule row_updates_sorted)
  next
    fix y y' :: nat and a b
    assume "y < y'" "a \<in> set (map fst (row_updates A B w thr oob y))"
      "b \<in> set (map fst (row_updates A B w thr oob y'))"
    then show "row_major_less a b"
      by (auto simp: row_updates_def row_major_less_def)
  qed
  then show ?thesis
    by (simp add: all_updates_def map_concat o_def)
qed

lemma row_major_less_irrefl: "\<not> row_major_less p p"
  by (simp add: row_major_less_def)

lemma all_updates_distinct:
  "distinct (map fst (all_updates A B w h thr oob))"
  by (rule sorted_wrt_irrefl_distinct [OF all_updates_sorted]) (rule row_major_less_irrefl)

section \<open>Properties of the decision\<close>

lemma distance_squared_commute: "distance_squared p q = distance_squared q p"
  by (simp add: distance_squared_def power2_commute split: prod.splits)

lemma distance_squared_self: "distance_squared p p = 0"
  by (simp add: distance_squared_def split: prod.splits)

lemma distance_squared_nonneg: "0 \<le> distance_squared p q"
  by (simp add: distance_squared_def split: prod.splits)

lemma needs_update_commute: "needs_update thr a b = needs_update thr b a"
  by (cases a; cases b) (auto simp: needs_update_def distance_squared_commute)

lemma needs_update_both_present:
  "needs_update thr (Some p) (Some q) \<longleftrightarrow> char p \<noteq> char q \<or> thr \<le> distance_squared p q"
  by (simp add: needs_update_def)

lemma needs_update_self: "0 < thr \<Longrightarrow> \<not> needs_update thr a a"
  by (cases a) (simp_all add: needs_update_def distance_squared_self)

lemma all_updates_empty:
  assumes "\<And>x y. scanned w h oob x y \<Longrightarrow> \<not> needs_update thr (cell_at A x y) (cell_at B x y)"
  shows "all_updates A B w h thr oob = []"
proof -
  have absent: "(p, c) \<notin> set (all_updates A B w h thr oob)" for p c
    using assms by (auto simp: in_all_updates)
  show ?thesis
  proof (cases "all_updates A B w h thr oob")
    case Nil
    then show ?thesis .
  next
    case (Cons e es)
    then have "(fst e, snd e) \<in> set (all_updates A B w h thr oob)"
      by simp
    with absent show ?thesis by blast
  qed
qed

lemma positions_commute:
  "map fst (all_updates A B w h thr oob) = map fst (all_updates B A w h thr oob)"
  by (simp add: all_updates_def row_updates_def map_concat o_def max.commute
      needs_update_commute [of thr "cell_at A _ _"])

lemma needs_update_one_absent:
  "needs_update thr None (Some q)" "needs_update thr (Some p) None"
  by (simp_all add: needs_update_def)

lemma pixel_to_draw_case:
  "pixel_to_draw a x y =
     (case a of Some p \<Rightarrow> p | None \<Rightarrow> Pixel '' '' (Color 0 0 0) (Position (int x) (int y)))"
  by (cases a) (simp_all add: pixel_to_draw_def)

text \<open>The definitions to unfold when the routine is run on a concrete input.\<close>

lemmas run_compute_diff_buffer =
  compute_diff_buffer_def row_body_def column_body_def getitem_def
  needs_update_def distance_squared_def pixel_to_draw_def

section \<open>The cell of an entry\<close>

text \<open>
  C1, as amended: every entry of the update list carries the cell of the first buffer
  argument (\<open>self_buffer\<close>, in the place the spec's signature gives to the previous
  frame) when that buffer has a cell at the entry's position, and otherwise the synthetic
  blank cell (space glyph, RGB black) positioned at (x, y). In particular, with tolerance
  0.05 and viewport 80 by 24, the first buffer one row [('A', blue)] against the second
  buffer one row [('A', red)] gives exactly [((0, 0), ('A', blue))], and the first buffer
  [] against the second buffer [('A', red)] gives exactly [((0, 0), (' ', black))].
\<close>

theorem payload_is_first_buffer_cell:
  "(\<exists>us. compute_diff_buffer A B w h t oob = Inr us
      \<and> (\<forall>pos c. (pos, c) \<in> set us \<longrightarrow>
            (\<exists>x y. pos = (int x, int y)
               \<and> c = (case cell_at A x y of
                        Some a \<Rightarrow> a
                      | None \<Rightarrow> Pixel '' '' (Color 0 0 0) (Position (int x) (int y))))))
   \<and> compute_diff_buffer [[Some (Pixel ''A'' blue p1)]] [[Some (Pixel ''A'' red p2)]]
        80 24 0.05 False
      = Inr [((0, 0), Pixel ''A'' blue p1)]
   \<and> compute_diff_buffer [] [[Some (Pixel ''A'' red p2)]] 80 24 0.05 False
      = Inr [((0, 0), Pixel '' '' (Color 0 0 0) (Position 0 0))]"
proof -
  have "\<forall>pos c. (pos, c) \<in> set (all_updates A B w h (t * t) oob) \<longrightarrow>
      (\<exists>x y. pos = (int x, int y)
         \<and> c = (case cell_at A x y of
                  Some a \<Rightarrow> a
                | None \<Rightarrow> Pixel '' '' (Color 0 0 0) (Position (int x) (int y))))"
    by (auto simp: in_all_updates pixel_to_draw_case)
  moreover have "compute_diff_buffer [[Some (Pixel ''A'' blue p1)]] [[Some (Pixel ''A'' red p2)]]
        80 24 0.05 False
      = Inr [((0, 0), Pixel ''A'' blue p1)]"
    by (simp add: run_compute_diff_buffer red_def blue_def)
  moreover have "compute_diff_buffer [] [[Some (Pixel ''A'' red p2)]] 80 24 0.05 False
      = Inr [((0, 0), Pixel '' '' (Color 0 0 0) (Position 0 0))]"
    by (simp add: run_compute_diff_buffer)
  ultimately show ?thesis
    unfolding compute_diff_buffer_scan by blast
qed

theorem payload_is_first_buffer_cell_witness:
  "\<exists>us. compute_diff_buffer [[Some (Pixel ''A'' blue (Position 0 0))]]
       [[Some (Pixel ''A'' red (Position 0 0))]] 80 24 0.05 False = Inr us
     \<and> ((0, 0), Pixel ''A'' blue (Position 0 0)) \<in> set us
     \<and> cell_at [[Some (Pixel ''A'' blue (Position 0 0))]] 0 0
         = Some (Pixel ''A'' blue (Position 0 0))"
  using payload_is_first_buffer_cell
    [of "[[Some (Pixel ''A'' blue (Position 0 0))]]" "[[Some (Pixel ''A'' red (Position 0 0))]]"
      80 24 "0.05" False "Position 0 0" "Position 0 0"]
  by (simp add: cell_at_def)

text \<open>
  With the buffers in the order of the spec's signature, previous first and current
  second, the entry carries the previous frame's cell: ('A', red) and not ('A', blue) in
  the first scenario, ('A', red) and not the blank cell in the second.
\<close>

theorem payload_is_current_cell_counterexample:
  "compute_diff_buffer [[Some (Pixel ''A'' red (Position 0 0))]]
      [[Some (Pixel ''A'' blue (Position 0 0))]] 80 24 0.05 False
     = Inr [((0, 0), Pixel ''A'' red (Position 0 0))]
   \<and> compute_diff_buffer [[Some (Pixel ''A'' red (Position 0 0))]]
      [[Some (Pixel ''A'' blue (Position 0 0))]] 80 24 0.05 False
     \<noteq> Inr [((0, 0), Pixel ''A'' blue (Position 0 0))]
   \<and> compute_diff_buffer [[Some (Pixel ''A'' red (Position 0 0))]] [] 80 24 0.05 False
     = Inr [((0, 0), Pixel ''A'' red (Position 0 0))]
   \<and> compute_diff_buffer [[Some (Pixel ''A'' red (Position 0 0))]] [] 80 24 0.05 False
     \<noteq> Inr [((0, 0), Pixel '' '' (Color 0 0 0) (Position 0 0))]"
  by (simp add: run_compute_diff_buffer red_def blue_def)

section \<open>Negative arguments\<close>

text \<open>
  C2, as amended: for every call, also one whose viewport width, viewport height or
  colour tolerance is negative, the routine raises no error and returns an update list;
  when the viewport width or height is negative and the out-of-bounds flag is false,
  that list is empty.
\<close>

theorem negative_arguments_accepted:
  "(\<exists>us. compute_diff_buffer A B w h t oob = Inr us)
   \<and> ((w < 0 \<or> h < 0) \<and> \<not> oob \<longrightarrow> compute_diff_buffer A B w h t oob = Inr [])"
proof -
  have "all_updates A B w h (t * t) oob = []" if "w < 0 \<or> h < 0" "\<not> oob"
    by (rule all_updates_empty) (use that in \<open>auto simp: scanned_def\<close>)
  then show ?thesis
    by (simp add: compute_diff_buffer_scan)
qed

theorem negative_arguments_accepted_witness:
  "(\<exists>us. compute_diff_buffer [[Some (Pixel ''A'' red (Position 0 0))]] [] (- 1) 24 (- 0.05) False
        = Inr us)
   \<and> compute_diff_buffer [[Some (Pixel ''A'' red (Position 0 0))]] [] (- 1) 24 (- 0.05) False
        = Inr []"
  using negative_arguments_accepted
    [of "[[Some (Pixel ''A'' red (Position 0 0))]]" "[]" "- 1" 24 "- 0.05" False]
  by simp

text \<open>
  Calls with a negative width, height or tolerance return: the empty list when a viewport
  bound is negative, and the ordinary update list when only the tolerance is.
\<close>

theorem negative_arguments_raise_counterexample:
  "compute_diff_buffer [[Some (Pixel ''A'' red (Position 0 0))]] [] (- 1) (- 1) (- 0.05) False
     = Inr []
   \<and> compute_diff_buffer [[Some (Pixel ''A'' red (Position 0 0))]] [] (- 1) 24 0.05 False
     = Inr []
   \<and> compute_diff_buffer [[Some (Pixel ''A'' red (Position 0 0))]] [] 80 (- 1) 0.05 False
     = Inr []
   \<and> compute_diff_buffer [[Some (Pixel ''A'' red (Position 0 0))]] [] 80 24 (- 0.05) False
     = Inr [((0, 0), Pixel ''A'' red (Position 0 0))]"
  by (simp add: run_compute_diff_buffer)

section \<open>Identity\<close>

text \<open>
  C3: diffing a buffer against itself with the default colour tolerance gives the empty
  update list. It holds for every viewport width and height, so for the non-negative ones
  of the claim, and for either value of the out-of-bounds flag: a cell has squared
  distance 0 to itself, which is below the squared default tolerance.
\<close>

theorem diff_identity:
  "compute_diff_buffer F F w h default_color_threshold oob = Inr []"
proof -
  have "all_updates F F w h (default_color_threshold * default_color_threshold) oob = []"
    by (rule all_updates_empty) (simp add: needs_update_self default_color_threshold_def)
  then show ?thesis by (simp add: compute_diff_buffer_scan)
qed

theorem diff_identity_witness:
  "compute_diff_buffer
     [[Some (Pixel ''A'' red (Position 0 0)), None], [],
      [None, Some (Pixel ''B'' blue (Position 1 2))]]
     [[Some (Pixel ''A'' red (Position 0 0)), None], [],
      [None, Some (Pixel ''B'' blue (Position 1 2))]]
     80 24 default_color_threshold False = Inr []"
  by (rule diff_identity)

section \<open>Viewport clipping\<close>

text \<open>
  C5: with the out-of-bounds flag false, every entry is at a position (x, y) with x below
  the viewport width and y below the viewport height, whatever the buffers hold beyond.
  With the flag true, the viewport plays no role: an entry stands at (x, y) exactly when
  the decision on the two cells there is true, over the whole union extent of the two
  buffers. In particular, with a cell of the second buffer at (10, 10), none of the first
  buffer there, and a viewport of 5 by 5, no entry is at (10, 10) when the flag is false
  and one is when it is true.
\<close>

theorem viewport_clipping:
  "(\<exists>us. compute_diff_buffer A B w h t False = Inr us
      \<and> (\<forall>px py c. ((px, py), c) \<in> set us \<longrightarrow> px < w \<and> py < h))
   \<and> (\<exists>vs. compute_diff_buffer A B w h t True = Inr vs
      \<and> (\<forall>x y. (\<exists>c. ((int x, int y), c) \<in> set vs) \<longleftrightarrow>
            needs_update (t * t) (cell_at A x y) (cell_at B x y)))
   \<and> (cell_at A' 10 10 = None \<and> cell_at B' 10 10 = Some q \<longrightarrow>
        (\<exists>us. compute_diff_buffer A' B' 5 5 t' False = Inr us
           \<and> \<not> (\<exists>c. ((10, 10), c) \<in> set us))
        \<and> (\<exists>vs. compute_diff_buffer A' B' 5 5 t' True = Inr vs
           \<and> (\<exists>c. ((10, 10), c) \<in> set vs)))"
proof -
  have clipped: "\<forall>px py c. ((px, py), c) \<in> set (all_updates A B w h (t * t) False)
      \<longrightarrow> px < w \<and> py < h"
    by (auto simp: in_all_updates scanned_def)
  have full: "\<forall>x y. (\<exists>c. ((int x, int y), c) \<in> set (all_updates A B w h (t * t) True)) \<longleftrightarrow>
      needs_update (t * t) (cell_at A x y) (cell_at B x y)"
    by (simp add: position_in_all_updates scanned_def)
  have scenario: "\<not> (\<exists>c. ((10, 10), c) \<in> set (all_updates A' B' 5 5 (t' * t') False))
      \<and> (\<exists>c. ((10, 10), c) \<in> set (all_updates A' B' 5 5 (t' * t') True))"
    if "cell_at A' 10 10 = None" "cell_at B' 10 10 = Some q"
    using that position_in_all_updates [of 10 10 A' B' 5 5 "t' * t'"]
    by (simp add: scanned_def needs_update_one_absent)
  from clipped full scenario show ?thesis
    unfolding compute_diff_buffer_scan by blast
qed

theorem viewport_clipping_witness:
  "(\<exists>us. compute_diff_buffer [] frame_10_10 5 5 0.05 False = Inr us
      \<and> \<not> (\<exists>c. ((10, 10), c) \<in> set us))
   \<and> (\<exists>vs. compute_diff_buffer [] frame_10_10 5 5 0.05 True = Inr vs
      \<and> (\<exists>c. ((10, 10), c) \<in> set vs))"
proof -
  have a: "cell_at [] 10 10 = None" by (simp add: cell_at_def)
  have b: "cell_at frame_10_10 10 10 = Some (Pixel ''A'' red (Position 10 10))"
    by (simp add: cell_at_def frame_10_10_def nth_append)
  show ?thesis
    using viewport_clipping [of "[]" "[]" 5 5 "0.05" "[]" frame_10_10
        "Pixel ''A'' red (Position 10 10)" "0.05"] a b
    by blast
qed

section \<open>Order of the update list\<close>

text \<open>
  C6: the positions of the returned entries are strictly increasing in row-major order
  (by y, then by x within a row), so no position occurs twice. That two calls with the
  same inputs return the same list holds by construction: the routine reads nothing but
  its arguments, and is a function of them here.
\<close>

theorem updates_row_major:
  "\<exists>us. compute_diff_buffer A B w h t oob = Inr us
     \<and> sorted_wrt row_major_less (map fst us) \<and> distinct (map fst us)"
  by (simp add: compute_diff_buffer_scan all_updates_sorted all_updates_distinct)

theorem updates_row_major_witness:
  "\<exists>us. compute_diff_buffer
       [[Some (Pixel ''A'' red (Position 0 0)), None, Some (Pixel ''C'' red (Position 2 0))],
        [Some (Pixel ''D'' blue (Position 0 1))]]
       [[Some (Pixel ''B'' red (Position 0 0))]] 80 24 0.05 False = Inr us
     \<and> sorted_wrt row_major_less (map fst us) \<and> distinct (map fst us)"
  by (rule updates_row_major)

section \<open>Symmetry of detection\<close>

text \<open>
  C7: with the two buffers exchanged and the other arguments the same, the entries are at
  exactly the same set of positions; the lists of positions are even equal.
\<close>

theorem detection_symmetric:
  "\<exists>us vs. compute_diff_buffer A B w h t oob = Inr us
     \<and> compute_diff_buffer B A w h t oob = Inr vs
     \<and> fst ` set us = fst ` set vs \<and> map fst us = map fst vs"
proof -
  have eq: "map fst (all_updates A B w h (t * t) oob) = map fst (all_updates B A w h (t * t) oob)"
    by (rule positions_commute)
  have "fst ` set (all_updates A B w h (t * t) oob)
      = fst ` set (all_updates B A w h (t * t) oob)"
    using arg_cong [OF eq, of set] by (simp only: set_map)
  with eq show ?thesis by (simp add: compute_diff_buffer_scan)
qed

theorem detection_symmetric_witness:
  "\<exists>us vs. compute_diff_buffer
       [[Some (Pixel ''A'' red (Position 0 0)), None, Some (Pixel ''C'' red (Position 2 0))]]
       [[Some (Pixel ''A'' blue (Position 0 0))], [None]] 80 24 0.05 False = Inr us
     \<and> compute_diff_buffer
       [[Some (Pixel ''A'' blue (Position 0 0))], [None]]
       [[Some (Pixel ''A'' red (Position 0 0)), None, Some (Pixel ''C'' red (Position 2 0))]]
       80 24 0.05 False = Inr vs
     \<and> fst ` set us = fst ` set vs \<and> map fst us = map fst vs"
  by (rule detection_symmetric)

section \<open>Irregular shapes\<close>

text \<open>
  C8: for every pair of buffers (jagged rows, empty buffers, empty rows, different row
  and column counts) the routine returns an update list and raises no error, and a
  position beyond a row's length or beyond a buffer's row count counts as an absent
  cell: an entry stands at (x, y) exactly when the position is scanned and the decision
  on the two cells, absent where out of range, is true.
\<close>

theorem shape_irregularities_safe:
  "\<exists>us. compute_diff_buffer A B w h t oob = Inr us
     \<and> (\<forall>x y. (\<exists>c. ((int x, int y), c) \<in> set us) \<longleftrightarrow>
           scanned w h oob x y \<and> needs_update (t * t) (cell_at A x y) (cell_at B x y))"
  by (simp add: compute_diff_buffer_scan position_in_all_updates)

text \<open>Rows of lengths 3, 0 and 5 against one row of length 5.\<close>

theorem shape_irregularities_safe_witness:
  "\<exists>us. compute_diff_buffer
       [replicate 3 (Some (Pixel ''A'' red (Position 0 0))), [],
        replicate 5 (Some (Pixel ''A'' red (Position 0 0)))]
       [replicate 5 (Some (Pixel ''A'' red (Position 0 0)))] 80 24 0.05 False = Inr us
     \<and> (\<forall>x y. (\<exists>c. ((int x, int y), c) \<in> set us) \<longleftrightarrow>
           scanned 80 24 False x y
           \<and> needs_update (0.05 * 0.05)
                (cell_at [replicate 3 (Some (Pixel ''A'' red (Position 0 0))), [],
                   replicate 5 (Some (Pixel ''A'' red (Position 0 0)))] x y)
                (cell_at [replicate 5 (Some (Pixel ''A'' red (Position 0 0)))] x y))"
  by (rule shape_irregularities_safe)

section \<open>Tolerance zero\<close>

text \<open>
  C9: with colour tolerance 0, every scanned position where both buffers have a cell
  with equal characters gets an entry, even when the two colours are the same; so
  diffing a buffer against itself with tolerance 0 gives a non-empty list as soon as the
  buffer has a present cell at a scanned position.
\<close>

theorem zero_tolerance_reports_equal_cells:
  "(cell_at A x y = Some p \<and> cell_at B x y = Some q \<and> char p = char q
      \<and> scanned w h oob x y \<longrightarrow>
      (\<exists>us c. compute_diff_buffer A B w h 0 oob = Inr us \<and> ((int x, int y), c) \<in> set us))
   \<and> (cell_at F x' y' = Some p' \<and> scanned w h oob x' y' \<longrightarrow>
      (\<exists>us. compute_diff_buffer F F w h 0 oob = Inr us \<and> us \<noteq> []))"
proof -
  have present: "\<exists>c. ((int i, int j), c) \<in> set (all_updates C D w h (0 * 0) oob)"
    if "cell_at C i j = Some a" "cell_at D i j = Some b" "char a = char b" "scanned w h oob i j"
    for C D i j a b
    using that by (simp add: position_in_all_updates needs_update_both_present distance_squared_nonneg)
  have "all_updates F F w h (0 * 0) oob \<noteq> []"
    if "cell_at F x' y' = Some p'" "scanned w h oob x' y'"
    using present [OF that(1) that(1) refl that(2)] by auto
  with present [of A x y p B q] show ?thesis
    by (auto simp: compute_diff_buffer_scan)
qed

theorem zero_tolerance_reports_equal_cells_witness:
  "(\<exists>us c. compute_diff_buffer [[Some (Pixel ''A'' red (Position 0 0))]]
        [[Some (Pixel ''A'' red (Position 0 0))]] 80 24 0 False = Inr us
      \<and> ((0, 0), c) \<in> set us)
   \<and> (\<exists>us. compute_diff_buffer [[Some (Pixel ''A'' red (Position 0 0))]]
        [[Some (Pixel ''A'' red (Position 0 0))]] 80 24 0 False = Inr us \<and> us \<noteq> [])"
proof -
  let ?p = "Pixel ''A'' red (Position 0 0)"
  have a: "cell_at [[Some ?p]] 0 0 = Some ?p" by (simp add: cell_at_def)
  have s: "scanned 80 24 False 0 0" by (simp add: scanned_def)
  show ?thesis
    using zero_tolerance_reports_equal_cells
      [of "[[Some ?p]]" 0 0 ?p "[[Some ?p]]" ?p 80 24 False "[[Some ?p]]" 0 0 ?p] a s
    by simp
qed

section \<open>Sign of the tolerance\<close>

text \<open>
  C10: a negative colour tolerance t is accepted, and the call returns the same update
  list as with the tolerance -t: only the square of the tolerance is used.
\<close>

theorem tolerance_sign_irrelevant:
  "t < 0 \<Longrightarrow> \<exists>us. compute_diff_buffer A B w h t oob = Inr us
      \<and> compute_diff_buffer A B w h (- t) oob = Inr us"
  by (simp add: compute_diff_buffer_scan)

theorem tolerance_sign_irrelevant_witness:
  "(- 0.05 :: real) < 0 \<and>
   (\<exists>us. compute_diff_buffer [[Some (Pixel ''A'' red (Position 0 0))]]
        [[Some (Pixel ''A'' blue (Position 0 0))]] 80 24 (- 0.05) False = Inr us
      \<and> compute_diff_buffer [[Some (Pixel ''A'' red (Position 0 0))]]
        [[Some (Pixel ''A'' blue (Position 0 0))]] 80 24 (- (- 0.05)) False = Inr us)"
proof -
  have neg: "(- 0.05 :: real) < 0" by simp
  show ?thesis
    using neg tolerance_sign_irrelevant [OF neg] by blast
qed

end
